theory Spec2Isabelle
  imports Complex_Main
begin

section \<open>Checkpoint store (process\_all\_transcripts.py, class CheckpointManager)\<close>

text \<open>
  The checkpoint is the dictionary \<^verbatim>\<open>self.data\<close> of \<^verbatim>\<open>CheckpointManager\<close>, with the
  seven keys that \<^verbatim>\<open>_load\<close> creates. File names and error messages are Python strings,
  the quote counters are Python integers. \<^verbatim>\<open>total_cost_usd\<close> is a Python float; it is
  modelled as a real number, so the rounding of float addition is left out (no property
  below depends on the value of a sum of costs).
\<close>

record checkpoint_data =
  extracted_files :: "string list"
  translated_files :: "string list"
  errors :: "string list"
  start_time :: "string option"
  total_cost_usd :: real
  total_quotes_extracted :: int
  total_quotes_translated :: int

text \<open>
  A \<^verbatim>\<open>CheckpointManager\<close> object is the dictionary in memory together with the file
  \<^verbatim>\<open>pipeline_checkpoint.json\<close>, which is absent (\<open>None\<close>) or holds the dictionary that
  the last \<^verbatim>\<open>save\<close> wrote. \<^verbatim>\<open>json.dump\<close> followed by \<^verbatim>\<open>json.load\<close> gives the
  dictionary back, so the file is modelled by its parsed content.
\<close>

record checkpoint_manager =
  data :: checkpoint_data
  checkpoint_file :: "checkpoint_data option"

definition empty_checkpoint :: checkpoint_data where
  "empty_checkpoint =
     \<lparr>extracted_files = [], translated_files = [], errors = [], start_time = None,
      total_cost_usd = 0, total_quotes_extracted = 0, total_quotes_translated = 0\<rparr>"

definition load_checkpoint :: "checkpoint_data option \<Rightarrow> checkpoint_data" where
  "load_checkpoint file = (case file of Some d \<Rightarrow> d | None \<Rightarrow> empty_checkpoint)"

definition CheckpointManager :: "checkpoint_data option \<Rightarrow> checkpoint_manager" where
  "CheckpointManager file = \<lparr>data = load_checkpoint file, checkpoint_file = file\<rparr>"

definition save :: "checkpoint_manager \<Rightarrow> checkpoint_manager" where
  "save cm = cm\<lparr>checkpoint_file := Some (data cm)\<rparr>"

definition mark_extracted ::
  "string \<Rightarrow> int \<Rightarrow> real \<Rightarrow> checkpoint_manager \<Rightarrow> checkpoint_manager" where
  "mark_extracted filename quote_count cost cm =
     save (if filename \<notin> set (extracted_files (data cm))
           then cm\<lparr>data := (data cm)
                  \<lparr>extracted_files := extracted_files (data cm) @ [filename],
                   total_quotes_extracted := total_quotes_extracted (data cm) + quote_count,
                   total_cost_usd := total_cost_usd (data cm) + cost\<rparr>\<rparr>
           else cm)"

definition mark_translated ::
  "string \<Rightarrow> int \<Rightarrow> real \<Rightarrow> checkpoint_manager \<Rightarrow> checkpoint_manager" where
  "mark_translated filename quote_count cost cm =
     save (if filename \<notin> set (translated_files (data cm))
           then cm\<lparr>data := (data cm)
                  \<lparr>translated_files := translated_files (data cm) @ [filename],
                   total_quotes_translated := total_quotes_translated (data cm) + quote_count,
                   total_cost_usd := total_cost_usd (data cm) + cost\<rparr>\<rparr>
           else cm)"

text \<open>
  \<^verbatim>\<open>add_error\<close> reads the clock; the ISO timestamp it gets is the argument \<open>timestamp\<close>.
\<close>

definition add_error :: "string \<Rightarrow> string \<Rightarrow> checkpoint_manager \<Rightarrow> checkpoint_manager" where
  "add_error timestamp error_msg cm =
     save (cm\<lparr>data := (data cm)
             \<lparr>errors := errors (data cm) @ [''['' @ timestamp @ ''] '' @ error_msg]\<rparr>\<rparr>)"

definition is_extracted :: "string \<Rightarrow> checkpoint_manager \<Rightarrow> bool" where
  "is_extracted filename cm \<longleftrightarrow> filename \<in> set (extracted_files (data cm))"

definition is_translated :: "string \<Rightarrow> checkpoint_manager \<Rightarrow> bool" where
  "is_translated filename cm \<longleftrightarrow> filename \<in> set (translated_files (data cm))"

definition set_start_time :: "string \<Rightarrow> checkpoint_manager \<Rightarrow> checkpoint_manager" where
  "set_start_time timestamp cm =
     (if start_time (data cm) = None
      then save (cm\<lparr>data := (data cm)\<lparr>start_time := Some timestamp\<rparr>\<rparr>)
      else cm)"

definition clear :: "checkpoint_manager \<Rightarrow> checkpoint_manager" where
  "clear cm = save (cm\<lparr>data := empty_checkpoint\<rparr>)"

section \<open>Python strings\<close>

text \<open>
  A Python string is modelled as a list of characters with code points below 256, so
  \<open>length\<close> counts code points as Python's \<^verbatim>\<open>len\<close> does on such strings. The
  character classes below are Python's, restricted to that range.
\<close>

definition isspace :: "char \<Rightarrow> bool" where
  "isspace c \<longleftrightarrow>
     (let n = (of_char c :: nat)
      in (9 \<le> n \<and> n \<le> 13) \<or> (28 \<le> n \<and> n \<le> 32) \<or> n = 133 \<or> n = 160)"

definition isdigit :: "char \<Rightarrow> bool" where
  "isdigit c \<longleftrightarrow> (let n = (of_char c :: nat) in 48 \<le> n \<and> n \<le> 57)"

definition lower_char :: "char \<Rightarrow> char" where
  "lower_char c =
     (let n = (of_char c :: nat)
      in if (65 \<le> n \<and> n \<le> 90) \<or> (192 \<le> n \<and> n \<le> 222 \<and> n \<noteq> 215)
         then char_of (n + 32) else c)"

definition lower :: "string \<Rightarrow> string" where
  "lower s = map lower_char s"

definition strip :: "string \<Rightarrow> string" where
  "strip s = rev (dropWhile isspace (rev (dropWhile isspace s)))"

text \<open>\<^verbatim>\<open>s[a:b]\<close> for indices \<open>0 \<le> a\<close> and \<open>0 \<le> b\<close>; Python clips both at the end of \<open>s\<close>.\<close>

definition slice :: "'a list \<Rightarrow> nat \<Rightarrow> nat \<Rightarrow> 'a list" where
  "slice s a b = take (b - a) (drop a s)"

text \<open>\<^verbatim>\<open>s.find(sub)\<close>: the lowest index where \<open>sub\<close> occurs in \<open>s\<close>, or \<open>-1\<close>.\<close>

fun find_from :: "string \<Rightarrow> string \<Rightarrow> nat \<Rightarrow> int" where
  "find_from sub [] i = (if sub = [] then int i else - 1)"
| "find_from sub (c # cs) i =
     (if take (length sub) (c # cs) = sub then int i else find_from sub cs (Suc i))"

definition str_find :: "string \<Rightarrow> string \<Rightarrow> int" where
  "str_find s sub = find_from sub s 0"

text \<open>\<^verbatim>\<open>s.replace(old, new)\<close>: every occurrence of \<open>old\<close>, found from left to right
  without overlap, becomes \<open>new\<close>.\<close>

function str_replace :: "string \<Rightarrow> string \<Rightarrow> string \<Rightarrow> string" where
  "str_replace old new s =
     (if old = [] then new @ concat (map (\<lambda>c. c # new) s)
      else if s = [] then []
      else if take (length old) s = old then new @ str_replace old new (drop (length old) s)
      else hd s # str_replace old new (tl s))"
  by pat_completeness auto
termination
  by (relation "measure (\<lambda>(old, new, s). length s)") auto

declare str_replace.simps [simp del]

text \<open>\<^verbatim>\<open>re.sub(r'\s+', ' ', text)\<close>: every maximal run of whitespace becomes one space.\<close>

function collapse_whitespace :: "string \<Rightarrow> string" where
  "collapse_whitespace [] = []"
| "collapse_whitespace (c # cs) =
     (if isspace c then CHR '' '' # collapse_whitespace (dropWhile isspace cs)
      else c # collapse_whitespace cs)"
  by pat_completeness auto
termination
  by (relation "measure length") (auto simp: less_Suc_eq_le length_dropWhile_le)

text \<open>\<^verbatim>\<open>s.split(sep)\<close> for a separator of one character.\<close>

fun split_on :: "char \<Rightarrow> string \<Rightarrow> string list" where
  "split_on sep [] = [[]]"
| "split_on sep (c # cs) =
     (if c = sep then [] # split_on sep cs
      else (case split_on sep cs of p # ps \<Rightarrow> (c # p) # ps | [] \<Rightarrow> [[c]]))"

definition zfill :: "nat \<Rightarrow> string \<Rightarrow> string" where
  "zfill width s =
     (if width \<le> length s then s
      else (case s of
              [] \<Rightarrow> replicate width (CHR ''0'')
            | c # cs \<Rightarrow>
                if c = CHR ''+'' \<or> c = CHR ''-''
                then c # replicate (width - length s) (CHR ''0'') @ cs
                else replicate (width - length s) (CHR ''0'') @ s))"

text \<open>\<^verbatim>\<open>str(n)\<close> for a natural number.\<close>

function str_nat :: "nat \<Rightarrow> string" where
  "str_nat n =
     (if n < 10 then [''0123456789'' ! n] else str_nat (n div 10) @ [''0123456789'' ! (n mod 10)])"
  by pat_completeness auto
termination
  by (relation "measure id") auto

declare str_nat.simps [simp del]

text \<open>\<^verbatim>\<open>PurePath.stem\<close>: the file name without its last suffix.\<close>

definition rfind_dot :: "string \<Rightarrow> int" where
  "rfind_dot name =
     (if CHR ''.'' \<in> set name
      then int (length name) - 1 - int (length (takeWhile (\<lambda>c. c \<noteq> CHR ''.'') (rev name)))
      else - 1)"

definition stem :: "string \<Rightarrow> string" where
  "stem name =
     (let i = rfind_dot name
      in if 0 < i \<and> i < int (length name) - 1 then take (nat i) name else name)"

section \<open>JSON values and quote records\<close>

text \<open>
  What \<^verbatim>\<open>json.load\<close> returns. Numbers are integers here. A quote record is a Python
  dictionary with string keys: a map from keys to values (the order of the keys in the
  file is not modelled). A quote file is a list of quote records.
\<close>

datatype jvalue =
    JNull
  | JBool bool
  | JNum int
  | JStr string
  | JList "jvalue list"
  | JObj "(string \<times> jvalue) list"

type_synonym quote = "string \<rightharpoonup> jvalue"

text \<open>Python's truth value of a JSON value (\<^verbatim>\<open>if not x\<close>).\<close>

fun truthy :: "jvalue \<Rightarrow> bool" where
  "truthy JNull = False"
| "truthy (JBool b) = b"
| "truthy (JNum n) = (n \<noteq> 0)"
| "truthy (JStr s) = (s \<noteq> [])"
| "truthy (JList xs) = (xs \<noteq> [])"
| "truthy (JObj kvs) = (kvs \<noteq> [])"

text \<open>\<^verbatim>\<open>d.get(key, default)\<close>.\<close>

definition dict_get :: "quote \<Rightarrow> string \<Rightarrow> jvalue \<Rightarrow> jvalue" where
  "dict_get d key dflt = (case d key of Some v \<Rightarrow> v | None \<Rightarrow> dflt)"

text \<open>An exception, with the text that \<^verbatim>\<open>str(e)\<close> gives.\<close>

datatype exn = Exception string

fun str_exn :: "exn \<Rightarrow> string" where
  "str_exn (Exception msg) = msg"

section \<open>Transcript alignment (fix\_timestamps.py)\<close>

definition normalize_timestamp :: "string \<Rightarrow> string" where
  "normalize_timestamp ts =
     (let parts = split_on (CHR '':'') ts
      in if length parts = 2 then ''00:'' @ zfill 2 (parts ! 0) @ '':'' @ parts ! 1
         else if length parts = 3
         then zfill 2 (parts ! 0) @ '':'' @ parts ! 1 @ '':'' @ parts ! 2
         else ts)"

text \<open>
  \<^verbatim>\<open>text.replace('"', '"')\<close> and \<^verbatim>\<open>text.replace("'", "'")\<close>, twice each: in the source
  both arguments are the same ASCII character (code 34, then code 39).
\<close>

definition clean_text_for_search :: "string \<Rightarrow> string" where
  "clean_text_for_search text =
     (let text1 = collapse_whitespace text;
          text2 = str_replace [CHR 0x22] [CHR 0x22]
                    (str_replace [CHR 0x22] [CHR 0x22] text1);
          text3 = str_replace [CHR 0x27] [CHR 0x27]
                    (str_replace [CHR 0x27] [CHR 0x27] text2)
      in strip text3)"

definition find_quote_position :: "string \<Rightarrow> string \<Rightarrow> int" where
  "find_quote_position transcript quote_text =
     (let clean_quote = clean_text_for_search quote_text;
          clean_transcript = clean_text_for_search transcript;
          pos = str_find clean_transcript clean_quote
      in if pos \<noteq> - 1 then pos
         else
           let pos100 = str_find clean_transcript (slice clean_quote 0 100)
           in if 100 < length clean_quote \<and> pos100 \<noteq> - 1 then pos100
              else
                let pos50 = str_find clean_transcript (slice clean_quote 0 50)
                in if 50 < length clean_quote \<and> pos50 \<noteq> - 1 then pos50
                   else
                     let pos30 = str_find clean_transcript (slice clean_quote 0 30)
                     in if 30 < length clean_quote \<and> pos30 \<noteq> - 1 then pos30
                        else
                          let posci = str_find (lower clean_transcript)
                                        (slice (lower clean_quote) 0 50)
                          in if posci \<noteq> - 1 then posci else - 1)"

text \<open>
  The pattern \<^verbatim>\<open>\((\d{1,2}:\d{2}:\d{2})\)\<close>. \<open>match_minutes_seconds\<close> matches
  \<^verbatim>\<open>:\d{2}:\d{2}\)\<close> at the start of a string and returns the text before the closing
  parenthesis; \<open>timestamp_match\<close> matches the whole pattern at the start of a string and
  returns group 1. The hour takes two digits when it can (the quantifier is greedy) and
  one digit otherwise.
\<close>

definition match_minutes_seconds :: "string \<Rightarrow> string option" where
  "match_minutes_seconds s =
     (if 7 \<le> length s \<and> s ! 0 = CHR '':'' \<and> isdigit (s ! 1) \<and> isdigit (s ! 2)
         \<and> s ! 3 = CHR '':'' \<and> isdigit (s ! 4) \<and> isdigit (s ! 5) \<and> s ! 6 = CHR '')''
      then Some (take 6 s) else None)"

definition timestamp_match :: "string \<Rightarrow> string option" where
  "timestamp_match s =
     (if 2 \<le> length s \<and> s ! 0 = CHR ''('' \<and> isdigit (s ! 1)
      then (case (if 3 \<le> length s \<and> isdigit (s ! 2)
                  then map_option (\<lambda>r. s ! 1 # s ! 2 # r) (match_minutes_seconds (drop 3 s))
                  else None) of
              Some g \<Rightarrow> Some g
            | None \<Rightarrow> map_option (\<lambda>r. s ! 1 # r) (match_minutes_seconds (drop 2 s)))
      else None)"

text \<open>
  \<^verbatim>\<open>timestamp_pattern.finditer(search_text)\<close>, as the list of
  \<^verbatim>\<open>(match.start(), match.group(1))\<close>: the scan goes from left to right and resumes
  after the end of each match.
\<close>

function finditer_from :: "nat \<Rightarrow> string \<Rightarrow> (nat \<times> string) list" where
  "finditer_from i s =
     (if s = [] then []
      else (case timestamp_match s of
              Some g \<Rightarrow> (i, g) # finditer_from (i + length g + 2) (drop (length g + 2) s)
            | None \<Rightarrow> finditer_from (Suc i) (tl s)))"
  by pat_completeness auto
termination
  by (relation "measure (\<lambda>(i, s). length s)") auto

declare finditer_from.simps [simp del]

definition search_in_window :: "string \<Rightarrow> nat \<Rightarrow> nat \<Rightarrow> string option" where
  "search_in_window transcript quote_start_pos window_size =
     (let search_start = nat (max 0 (int quote_start_pos - int window_size));
          search_end = quote_start_pos;
          search_text = slice transcript search_start search_end;
          timestamps = finditer_from 0 search_text
      in if timestamps \<noteq> [] then Some (snd (last (sort_key fst timestamps))) else None)"

text \<open>\<^verbatim>\<open>if result:\<close> holds for a result that is neither \<^verbatim>\<open>None\<close> nor the empty string.\<close>

definition found :: "string option \<Rightarrow> bool" where
  "found result \<longleftrightarrow> (case result of Some ts \<Rightarrow> ts \<noteq> [] | None \<Rightarrow> False)"

definition find_timestamp_before_position :: "string \<Rightarrow> nat \<Rightarrow> string option" where
  "find_timestamp_before_position transcript quote_start_pos =
     (let r200 = search_in_window transcript quote_start_pos 200
      in if found r200 then map_option normalize_timestamp r200
         else
           let r500 = search_in_window transcript quote_start_pos 500
           in if found r500 then map_option normalize_timestamp r500
              else
                let r1000 = search_in_window transcript quote_start_pos 1000
                in if found r1000 then map_option normalize_timestamp r1000
                   else
                     let rall = search_in_window transcript quote_start_pos quote_start_pos
                     in if found rall then map_option normalize_timestamp rall else None)"

text \<open>
  The loop of \<^verbatim>\<open>process_quote_file\<close> over the quotes of one file, once the transcript is
  loaded. A quote whose \<^verbatim>\<open>text\<close> is truthy but not a string makes \<^verbatim>\<open>re.sub\<close> raise,
  and the exception leaves the function before the file is written.
\<close>

record stats =
  quotes_checked :: nat
  timestamps_updated :: nat
  timestamps_unchanged :: nat
  warnings :: "string list"

definition process_quote :: "string \<Rightarrow> quote \<Rightarrow> stats \<Rightarrow> exn + quote \<times> stats" where
  "process_quote transcript q st =
     (let quote_text = dict_get q ''text'' (JStr '''');
          old_timestamp = dict_get q ''timestamp'' (JStr '''')
      in if \<not> truthy quote_text then Inr (q, st)
         else (case quote_text of
                 JStr text \<Rightarrow>
                   (let pos = find_quote_position transcript text
                    in if pos = - 1
                       then Inr (q, st\<lparr>warnings := warnings st
                                           @ [''Text not found: '' @ slice text 0 40 @ ''...''],
                                       timestamps_unchanged := timestamps_unchanged st + 1\<rparr>)
                       else (case find_timestamp_before_position transcript (nat pos) of
                               None \<Rightarrow>
                                 (let st1 = st\<lparr>warnings := warnings st
                                              @ [''No timestamp found for: '' @ slice text 0 40
                                                 @ ''...'']\<rparr>
                                  in if truthy old_timestamp
                                     then Inr (q, st1\<lparr>timestamps_unchanged :=
                                                         timestamps_unchanged st1 + 1\<rparr>)
                                     else Inr (q(''timestamp'' \<mapsto> JStr ''00:00:00''),
                                               st1\<lparr>timestamps_updated :=
                                                      timestamps_updated st1 + 1\<rparr>))
                             | Some new_timestamp \<Rightarrow>
                                 if old_timestamp \<noteq> JStr new_timestamp
                                 then Inr (q(''timestamp'' \<mapsto> JStr new_timestamp),
                                           st\<lparr>timestamps_updated := timestamps_updated st + 1\<rparr>)
                                 else Inr (q, st\<lparr>timestamps_unchanged :=
                                                    timestamps_unchanged st + 1\<rparr>)))
               | _ \<Rightarrow> Inl (Exception ''TypeError'')))"

fun process_quotes :: "string \<Rightarrow> quote list \<Rightarrow> stats \<Rightarrow> exn + quote list \<times> stats" where
  "process_quotes transcript [] st = Inr ([], st)"
| "process_quotes transcript (q # qs) st =
     (case process_quote transcript q st of
        Inl e \<Rightarrow> Inl e
      | Inr (q', st') \<Rightarrow>
          (case process_quotes transcript qs st' of
             Inl e \<Rightarrow> Inl e
           | Inr (qs', st'') \<Rightarrow> Inr (q' # qs', st'')))"

section \<open>The pipeline (process\_all\_transcripts.py)\<close>

definition BATCH_SIZE :: nat where
  "BATCH_SIZE = 50"

definition MAX_RETRIES :: nat where
  "MAX_RETRIES = 3"

definition COST_PER_FILE_EXTRACT_USD :: real where
  "COST_PER_FILE_EXTRACT_USD = 2 / 100"

definition COST_PER_FILE_TRANSLATE_USD :: real where
  "COST_PER_FILE_TRANSLATE_USD = 3 / 100"

text \<open>
  The external services and the clock are not part of the program. Each is a function of
  the number of service calls (or clock readings) made so far, so that a service may
  answer the same request differently when it is retried. \<open>Inl\<close> is an exception raised
  inside the calling function:
  \<^item> \<open>extract_quotes_response\<close>: what \<^verbatim>\<open>extract_quotes_api\<close> returns for a prompt and a
    transcript, after \<^verbatim>\<open>json.loads\<close>; a response that is not a list of objects is an
    exception here (\<^verbatim>\<open>json.loads\<close> or the enrichment loop raises on it);
  \<^item> \<open>korean_response\<close> and \<open>claude_response\<close>: the content of the message that
    \<^verbatim>\<open>translate_to_korean\<close> and \<^verbatim>\<open>translate_with_claude\<close> receive, before
    \<^verbatim>\<open>.strip()\<close>;
  \<^item> \<open>translate_text_response\<close>: the same for \<^verbatim>\<open>translate_text\<close> of
    fill\_missing\_translations\_openai.py;
  \<^item> \<open>clock\<close>: \<^verbatim>\<open>datetime.now().isoformat()\<close>.
\<close>

record services =
  extract_quotes_response :: "nat \<Rightarrow> string \<Rightarrow> string \<Rightarrow> exn + quote list"
  korean_response :: "nat \<Rightarrow> jvalue \<Rightarrow> exn + string"
  claude_response :: "nat \<Rightarrow> string \<Rightarrow> jvalue \<Rightarrow> exn + string"
  translate_text_response :: "nat \<Rightarrow> string \<Rightarrow> jvalue \<Rightarrow> exn + string"
  clock :: "nat \<Rightarrow> string"

datatype api_call =
    ExtractQuotes string string
  | TranslateToKorean jvalue
  | TranslateWithClaude string jvalue
  | TranslateText string jvalue

text \<open>
  The state that the pipeline reads and writes: the checkpoint manager, the directory
  \<^verbatim>\<open>transcripts/\<close> (file name to text), the directory \<^verbatim>\<open>output/\<close> (file name to the
  parsed quote file), the service calls issued so far, the messages passed to
  \<^verbatim>\<open>logger.error\<close>, and the number of clock readings. The waits
  (\<^verbatim>\<open>time.sleep\<close>) and the console output change none of these and are left out.
\<close>

record world =
  checkpoint :: checkpoint_manager
  transcripts :: "string \<rightharpoonup> string"
  output_dir :: "string \<rightharpoonup> quote list"
  api_calls :: "api_call list"
  error_log :: "string list"
  clock_reads :: nat

definition extract_quotes_api ::
  "services \<Rightarrow> string \<Rightarrow> string \<Rightarrow> world \<Rightarrow> (exn + quote list) \<times> world" where
  "extract_quotes_api sv transcript prompt w =
     (extract_quotes_response sv (length (api_calls w)) prompt transcript,
      w\<lparr>api_calls := api_calls w @ [ExtractQuotes prompt transcript]\<rparr>)"

text \<open>
  \<^verbatim>\<open>speaker_name in speaker_profiles\<close> raises \<^verbatim>\<open>TypeError\<close> when the speaker is a list
  or an object (unhashable); the keys of the profiles are strings, so any other value
  that is not a string is not among them.
\<close>

definition enrich_quote :: "(string \<rightharpoonup> quote) \<Rightarrow> quote \<Rightarrow> exn + quote" where
  "enrich_quote speaker_profiles q =
     (case dict_get q ''speaker'' (JStr '''') of
        JList _ \<Rightarrow> Inl (Exception ''TypeError'')
      | JObj _ \<Rightarrow> Inl (Exception ''TypeError'')
      | JStr speaker_name \<Rightarrow>
          (case speaker_profiles speaker_name of
             Some profile \<Rightarrow>
               Inr (q(''speaker_function'' \<mapsto> dict_get profile ''function'' (JStr ''Leadership''),
                      ''speaker_expertise'' \<mapsto> dict_get profile ''expertise'' (JList [])))
           | None \<Rightarrow>
               Inr (q(''speaker_function'' \<mapsto> JStr ''Leadership'',
                      ''speaker_expertise'' \<mapsto> JList [])))
      | _ \<Rightarrow>
          Inr (q(''speaker_function'' \<mapsto> JStr ''Leadership'',
                 ''speaker_expertise'' \<mapsto> JList [])))"

fun enrich_quotes_with_speaker_info ::
  "quote list \<Rightarrow> (string \<rightharpoonup> quote) \<Rightarrow> exn + quote list" where
  "enrich_quotes_with_speaker_info [] speaker_profiles = Inr []"
| "enrich_quotes_with_speaker_info (q # qs) speaker_profiles =
     (case enrich_quote speaker_profiles q of
        Inl e \<Rightarrow> Inl e
      | Inr q' \<Rightarrow>
          (case enrich_quotes_with_speaker_info qs speaker_profiles of
             Inl e \<Rightarrow> Inl e
           | Inr qs' \<Rightarrow> Inr (q' # qs')))"

definition translate_to_korean ::
  "services \<Rightarrow> jvalue \<Rightarrow> world \<Rightarrow> (exn + string) \<times> world" where
  "translate_to_korean sv text w =
     (map_sum id strip (korean_response sv (length (api_calls w)) text),
      w\<lparr>api_calls := api_calls w @ [TranslateToKorean text]\<rparr>)"

text \<open>\<^verbatim>\<open>CLAUDE_PROMPTS[lang_code]\<close> raises \<^verbatim>\<open>KeyError\<close> before any call for a language
  other than \<^verbatim>\<open>zh\<close> and \<^verbatim>\<open>es\<close>.\<close>

definition translate_with_claude ::
  "services \<Rightarrow> jvalue \<Rightarrow> string \<Rightarrow> world \<Rightarrow> (exn + string) \<times> world" where
  "translate_with_claude sv text lang_code w =
     (if lang_code \<noteq> ''zh'' \<and> lang_code \<noteq> ''es'' then (Inl (Exception ''KeyError''), w)
      else (map_sum id strip (claude_response sv (length (api_calls w)) lang_code text),
            w\<lparr>api_calls := api_calls w @ [TranslateWithClaude lang_code text]\<rparr>))"

definition extract_single_file ::
  "services \<Rightarrow> (string \<rightharpoonup> quote) \<Rightarrow> string \<Rightarrow> string \<Rightarrow> world
     \<Rightarrow> (exn + int \<times> string) \<times> world" where
  "extract_single_file sv speaker_profiles prompt transcript_name w =
     (case transcripts w transcript_name of
        None \<Rightarrow> (Inl (Exception ''FileNotFoundError''), w)
      | Some transcript \<Rightarrow>
          (case extract_quotes_api sv transcript prompt w of
             (Inl e, w1) \<Rightarrow> (Inl e, w1)
           | (Inr quotes, w1) \<Rightarrow>
               (case enrich_quotes_with_speaker_info quotes speaker_profiles of
                  Inl e \<Rightarrow> (Inl e, w1)
                | Inr quotes' \<Rightarrow>
                    (let output_filename = stem transcript_name @ ''_quotes.json''
                     in (Inr (int (length quotes'), output_filename),
                         w1\<lparr>output_dir := (output_dir w1)(output_filename \<mapsto> quotes')\<rparr>)))))"

text \<open>The body of the loop of \<^verbatim>\<open>translate_single_file\<close>, for one quote.\<close>

definition translate_quote :: "services \<Rightarrow> quote \<Rightarrow> world \<Rightarrow> (exn + quote) \<times> world" where
  "translate_quote sv q w =
     (case q ''text'' of
        None \<Rightarrow> (Inl (Exception ''KeyError''), w)
      | Some text \<Rightarrow>
          (case translate_to_korean sv text w of
             (Inl e, w1) \<Rightarrow> (Inl e, w1)
           | (Inr ko, w1) \<Rightarrow>
               (case translate_with_claude sv text ''zh'' w1 of
                  (Inl e, w2) \<Rightarrow> (Inl e, w2)
                | (Inr zh, w2) \<Rightarrow>
                    (case translate_with_claude sv text ''es'' w2 of
                       (Inl e, w3) \<Rightarrow> (Inl e, w3)
                     | (Inr es, w3) \<Rightarrow>
                         (Inr (q(''text_ko'' \<mapsto> JStr ko, ''text_zh'' \<mapsto> JStr zh,
                                 ''text_es'' \<mapsto> JStr es)), w3)))))"

fun translate_quotes :: "services \<Rightarrow> quote list \<Rightarrow> world \<Rightarrow> (exn + quote list) \<times> world" where
  "translate_quotes sv [] w = (Inr [], w)"
| "translate_quotes sv (q # qs) w =
     (case translate_quote sv q w of
        (Inl e, w1) \<Rightarrow> (Inl e, w1)
      | (Inr q', w1) \<Rightarrow>
          (case translate_quotes sv qs w1 of
             (Inl e, w2) \<Rightarrow> (Inl e, w2)
           | (Inr qs', w2) \<Rightarrow> (Inr (q' # qs'), w2)))"

definition translate_single_file ::
  "services \<Rightarrow> string \<Rightarrow> world \<Rightarrow> (exn + int) \<times> world" where
  "translate_single_file sv quotes_path w =
     (case output_dir w quotes_path of
        None \<Rightarrow> (Inl (Exception ''FileNotFoundError''), w)
      | Some quotes \<Rightarrow>
          (case translate_quotes sv quotes w of
             (Inl e, w1) \<Rightarrow> (Inl e, w1)
           | (Inr quotes', w1) \<Rightarrow>
               (Inr (int (length quotes')),
                w1\<lparr>output_dir := (output_dir w1)(quotes_path \<mapsto> quotes')\<rparr>)))"

text \<open>
  The \<^verbatim>\<open>while retry_count < MAX_RETRIES\<close> loops of the two batch functions. The first
  component of the result is what the loop adds to \<^verbatim>\<open>batch_processed\<close>. A successful
  attempt leaves the loop (\<^verbatim>\<open>break\<close>); a failed one is logged, and the last failed one
  is also recorded with \<^verbatim>\<open>add_error\<close>.
\<close>

definition record_failure :: "services \<Rightarrow> string \<Rightarrow> nat \<Rightarrow> world \<Rightarrow> world" where
  "record_failure sv error_msg retry_count w =
     (let w1 = w\<lparr>error_log := error_log w @ [error_msg]\<rparr>
      in if retry_count < MAX_RETRIES then w1
         else w1\<lparr>clock_reads := Suc (clock_reads w1),
                 checkpoint :=
                   add_error (clock sv (clock_reads w1))
                     (''FAILED after '' @ str_nat MAX_RETRIES @ '' attempts: '' @ error_msg)
                     (checkpoint w1)\<rparr>)"

function extract_retry_loop ::
  "services \<Rightarrow> (string \<rightharpoonup> quote) \<Rightarrow> string \<Rightarrow> string \<Rightarrow> nat \<Rightarrow> world \<Rightarrow> nat \<times> world" where
  "extract_retry_loop sv speaker_profiles prompt filename retry_count w =
     (if retry_count < MAX_RETRIES
      then (case extract_single_file sv speaker_profiles prompt filename w of
              (Inr (quote_count, output_file), w1) \<Rightarrow>
                (1, w1\<lparr>checkpoint :=
                         mark_extracted filename quote_count COST_PER_FILE_EXTRACT_USD
                           (checkpoint w1)\<rparr>)
            | (Inl e, w1) \<Rightarrow>
                extract_retry_loop sv speaker_profiles prompt filename (retry_count + 1)
                  (record_failure sv
                     (''Extract '' @ filename @ '' (attempt '' @ str_nat (retry_count + 1)
                        @ ''): '' @ str_exn e)
                     (retry_count + 1) w1))
      else (0, w))"
  by pat_completeness auto
termination
  by (relation "measure (\<lambda>(sv, speaker_profiles, prompt, filename, retry_count, w).
                           MAX_RETRIES - retry_count)") auto

declare extract_retry_loop.simps [simp del]

function translate_retry_loop ::
  "services \<Rightarrow> string \<Rightarrow> string \<Rightarrow> nat \<Rightarrow> world \<Rightarrow> nat \<times> world" where
  "translate_retry_loop sv filename quotes_filename retry_count w =
     (if retry_count < MAX_RETRIES
      then (case translate_single_file sv quotes_filename w of
              (Inr quote_count, w1) \<Rightarrow>
                (1, w1\<lparr>checkpoint :=
                         mark_translated filename quote_count COST_PER_FILE_TRANSLATE_USD
                           (checkpoint w1)\<rparr>)
            | (Inl e, w1) \<Rightarrow>
                translate_retry_loop sv filename quotes_filename (retry_count + 1)
                  (record_failure sv
                     (''Translate '' @ quotes_filename @ '' (attempt ''
                        @ str_nat (retry_count + 1) @ ''): '' @ str_exn e)
                     (retry_count + 1) w1))
      else (0, w))"
  by pat_completeness auto
termination
  by (relation "measure (\<lambda>(sv, filename, quotes_filename, retry_count, w).
                           MAX_RETRIES - retry_count)") auto

declare translate_retry_loop.simps [simp del]

text \<open>
  The \<^verbatim>\<open>for\<close> loops of the batch functions, over the file names of the batch; the pair is
  (\<^verbatim>\<open>batch_processed\<close>, state).
\<close>

fun process_batch_extract ::
  "services \<Rightarrow> (string \<rightharpoonup> quote) \<Rightarrow> string \<Rightarrow> string list \<Rightarrow> nat \<times> world \<Rightarrow> nat \<times> world" where
  "process_batch_extract sv speaker_profiles prompt [] (batch_processed, w) =
     (batch_processed, w)"
| "process_batch_extract sv speaker_profiles prompt (filename # batch_files) (batch_processed, w) =
     (if is_extracted filename (checkpoint w)
      then process_batch_extract sv speaker_profiles prompt batch_files (batch_processed + 1, w)
      else (case extract_retry_loop sv speaker_profiles prompt filename 0 w of
              (n, w') \<Rightarrow>
                process_batch_extract sv speaker_profiles prompt batch_files
                  (batch_processed + n, w')))"

fun process_batch_translate ::
  "services \<Rightarrow> string list \<Rightarrow> nat \<times> world \<Rightarrow> nat \<times> world" where
  "process_batch_translate sv [] (batch_processed, w) = (batch_processed, w)"
| "process_batch_translate sv (filename # batch_files) (batch_processed, w) =
     (let quotes_filename = str_replace ''.txt'' ''_quotes.json'' filename
      in if is_translated filename (checkpoint w)
         then process_batch_translate sv batch_files (batch_processed + 1, w)
         else if output_dir w quotes_filename = None
         then process_batch_translate sv batch_files (batch_processed, w)
         else (case translate_retry_loop sv filename quotes_filename 0 w of
                 (n, w') \<Rightarrow> process_batch_translate sv batch_files (batch_processed + n, w')))"

text \<open>
  \<^verbatim>\<open>main\<close>. \<open>transcript_files\<close> is \<^verbatim>\<open>sorted(transcripts_dir.glob("*.txt"))\<close>, as file
  names. The operator's answers to the four prompts are booleans (whether the answer is
  \<^verbatim>\<open>y\<close>). The export to the spreadsheet reads the quote files and writes other files
  only; it is left out.
\<close>

record operator =
  resume :: bool
  clear_and_restart :: bool
  proceed :: bool
  delete_checkpoint :: bool

definition run_batch ::
  "services \<Rightarrow> (string \<rightharpoonup> quote) \<Rightarrow> string \<Rightarrow> string list \<Rightarrow> nat \<Rightarrow> world \<Rightarrow> world" where
  "run_batch sv speaker_profiles prompt transcript_files batch_num w =
     (let total_files = length transcript_files;
          start_idx = (batch_num - 1) * BATCH_SIZE;
          end_idx = min (batch_num * BATCH_SIZE) total_files;
          batch_files = slice transcript_files start_idx end_idx;
          w1 = snd (process_batch_extract sv speaker_profiles prompt batch_files (0, w));
          w2 = snd (process_batch_translate sv batch_files (0, w1))
      in w2)"

definition run_batches ::
  "services \<Rightarrow> (string \<rightharpoonup> quote) \<Rightarrow> string \<Rightarrow> string list \<Rightarrow> world \<Rightarrow> world" where
  "run_batches sv speaker_profiles prompt transcript_files w =
     (let total_files = length transcript_files;
          batch_count = (total_files + BATCH_SIZE - 1) div BATCH_SIZE;
          w1 = w\<lparr>clock_reads := Suc (clock_reads w),
                 checkpoint := set_start_time (clock sv (clock_reads w)) (checkpoint w)\<rparr>
      in fold (run_batch sv speaker_profiles prompt transcript_files) [1..<batch_count + 1] w1)"

definition finish :: "operator \<Rightarrow> world \<Rightarrow> world" where
  "finish ans w =
     (if errors (data (checkpoint w)) = [] \<and> delete_checkpoint ans
      then w\<lparr>checkpoint := (checkpoint w)\<lparr>checkpoint_file := None\<rparr>\<rparr>
      else w)"

definition main ::
  "services \<Rightarrow> operator \<Rightarrow> (string \<rightharpoonup> quote) \<Rightarrow> string \<Rightarrow> string list \<Rightarrow> world \<Rightarrow> world" where
  "main sv ans speaker_profiles prompt transcript_files w0 =
     (let w = w0\<lparr>checkpoint := CheckpointManager (checkpoint_file (checkpoint w0))\<rparr>;
          already_extracted = length (extracted_files (data (checkpoint w)));
          already_translated = length (translated_files (data (checkpoint w)))
      in if transcript_files = [] then w
         else if (0 < already_extracted \<or> 0 < already_translated) \<and> \<not> resume ans
         then (if clear_and_restart ans
               then (let w1 = w\<lparr>checkpoint := clear (checkpoint w)\<rparr>
                     in if proceed ans
                        then finish ans (run_batches sv speaker_profiles prompt transcript_files w1)
                        else w1)
               else w)
         else if proceed ans
         then finish ans (run_batches sv speaker_profiles prompt transcript_files w)
         else w)"

section \<open>Filling missing translations (fill\_missing\_translations\_openai.py)\<close>







section \<open>Histories of the checkpoint store\<close>

text \<open>
  A history is a sequence of calls on the checkpoint store, starting with no checkpoint
  file. \<open>Load\<close> is an interruption followed by a resume: the manager in memory is lost
  and a new one is created from the file.
\<close>

datatype checkpoint_op =
    MarkExtracted string int real
  | MarkTranslated string int real
  | AddError string string
  | Load

fun apply_op :: "checkpoint_op \<Rightarrow> checkpoint_manager \<Rightarrow> checkpoint_manager" where
  "apply_op (MarkExtracted f q c) cm = mark_extracted f q c cm"
| "apply_op (MarkTranslated f q c) cm = mark_translated f q c cm"
| "apply_op (AddError ts msg) cm = add_error ts msg cm"
| "apply_op Load cm = CheckpointManager (checkpoint_file cm)"

definition run_ops :: "checkpoint_op list \<Rightarrow> checkpoint_manager" where
  "run_ops ops = fold apply_op ops (CheckpointManager None)"

text \<open>
  The quote count of a unit, read off the history: the count passed by the first
  \<^verbatim>\<open>mark_extracted\<close> for the file; for a file that was never marked extracted, the count
  passed by the first \<^verbatim>\<open>mark_translated\<close> (the length of its quote file).
\<close>

fun extracted_count :: "checkpoint_op list \<Rightarrow> string \<Rightarrow> int option" where
  "extracted_count [] f = None"
| "extracted_count (MarkExtracted g q c # ops) f =
     (if g = f then Some q else extracted_count ops f)"
| "extracted_count (MarkTranslated g q c # ops) f = extracted_count ops f"
| "extracted_count (AddError ts msg # ops) f = extracted_count ops f"
| "extracted_count (Load # ops) f = extracted_count ops f"

fun translated_count :: "checkpoint_op list \<Rightarrow> string \<Rightarrow> int option" where
  "translated_count [] f = None"
| "translated_count (MarkTranslated g q c # ops) f =
     (if g = f then Some q else translated_count ops f)"
| "translated_count (MarkExtracted g q c # ops) f = translated_count ops f"
| "translated_count (AddError ts msg # ops) f = translated_count ops f"
| "translated_count (Load # ops) f = translated_count ops f"

definition unit_quote_count :: "checkpoint_op list \<Rightarrow> string \<Rightarrow> int" where
  "unit_quote_count ops f =
     (case extracted_count ops f of
        Some q \<Rightarrow> q
      | None \<Rightarrow> (case translated_count ops f of Some q \<Rightarrow> q | None \<Rightarrow> 0))"

text \<open>
  The status of a unit as the checkpoint reports it, and the sum that the specification
  compares the counter with: the quote counts of all units whose status is extracted or
  translated.
\<close>

datatype stage_status = Pending | Extracted | Translated

definition stage_status :: "checkpoint_manager \<Rightarrow> string \<Rightarrow> stage_status" where
  "stage_status cm f =
     (if is_translated f cm then Translated
      else if is_extracted f cm then Extracted
      else Pending)"

definition known_units :: "checkpoint_manager \<Rightarrow> string list" where
  "known_units cm = remdups (extracted_files (data cm) @ translated_files (data cm))"

definition quotes_of_done_units :: "checkpoint_op list \<Rightarrow> int" where
  "quotes_of_done_units ops =
     sum_list (map (unit_quote_count ops)
       (filter (\<lambda>f. stage_status (run_ops ops) f = Extracted
                     \<or> stage_status (run_ops ops) f = Translated)
          (known_units (run_ops ops))))"

definition counter_consistent :: "checkpoint_op list \<Rightarrow> bool" where
  "counter_consistent ops \<longleftrightarrow>
     total_quotes_extracted (data (run_ops ops)) = quotes_of_done_units ops"

section \<open>Notions used in the properties\<close>





text \<open>What a step leaves alone: everything but the trace of calls.\<close>

definition same_files :: "world \<Rightarrow> world \<Rightarrow> bool" where
  "same_files w w' \<longleftrightarrow>
     output_dir w' = output_dir w \<and> checkpoint w' = checkpoint w
     \<and> transcripts w' = transcripts w \<and> error_log w' = error_log w
     \<and> clock_reads w' = clock_reads w"











text \<open>
  A timestamp marker of a transcript: the pattern matches at offset \<open>p\<close> with group
  \<open>g\<close>, so the marker takes the \<open>length g + 2\<close> characters from \<open>p\<close>. It is inside
  \<open>[lo, hi)\<close> when it starts at or after \<open>lo\<close> and ends at or before \<open>hi\<close>.
\<close>

definition marker_at :: "string \<Rightarrow> nat \<Rightarrow> string \<Rightarrow> bool" where
  "marker_at transcript p g \<longleftrightarrow> timestamp_match (drop p transcript) = Some g"

definition marker_inside :: "string \<Rightarrow> nat \<Rightarrow> nat \<Rightarrow> nat \<Rightarrow> string \<Rightarrow> bool" where
  "marker_inside transcript lo hi p g \<longleftrightarrow>
     lo \<le> p \<and> p + length g + 2 \<le> hi \<and> marker_at transcript p g"

text \<open>An example transcript: a marker at offset 0, a quote at offset 300, a marker
  after the quote.\<close>

definition example_transcript :: string where
  "example_transcript =
     ''(1:15:30)'' @ replicate 291 (CHR ''x'') @ ''Growth is about retention. (00:02:40)''"

text \<open>The manager in memory agrees with what loading the checkpoint file gives.\<close>

definition in_sync :: "checkpoint_manager \<Rightarrow> bool" where
  "in_sync cm \<longleftrightarrow> data cm = load_checkpoint (checkpoint_file cm)"

section \<open>Properties of the checkpoint store\<close>

text \<open>
  Claim C2. Marking is idempotent: a second \<^verbatim>\<open>mark_extracted\<close> (or
  \<^verbatim>\<open>mark_translated\<close>) with the same file name, whatever quote count and cost it is
  given, leaves the whole checkpoint manager (lists, counters, cost, and the saved file)
  as the first call left it. Only a first call for a file name that is not yet listed
  appends the name and adds the quote count and the cost.
\<close>

theorem mark_idempotent:
  "mark_extracted f q' c' (mark_extracted f q c cm) = mark_extracted f q c cm
   \<and> mark_translated f q' c' (mark_translated f q c cm) = mark_translated f q c cm
   \<and> (f \<notin> set (extracted_files (data cm)) \<longrightarrow>
        extracted_files (data (mark_extracted f q c cm)) = extracted_files (data cm) @ [f]
        \<and> total_quotes_extracted (data (mark_extracted f q c cm))
            = total_quotes_extracted (data cm) + q
        \<and> total_cost_usd (data (mark_extracted f q c cm)) = total_cost_usd (data cm) + c)
   \<and> (f \<notin> set (translated_files (data cm)) \<longrightarrow>
        translated_files (data (mark_translated f q c cm)) = translated_files (data cm) @ [f]
        \<and> total_quotes_translated (data (mark_translated f q c cm))
            = total_quotes_translated (data cm) + q
        \<and> total_cost_usd (data (mark_translated f q c cm)) = total_cost_usd (data cm) + c)"
  by (simp add: mark_extracted_def mark_translated_def save_def)

theorem mark_idempotent_witness:
  "mark_extracted ''a.txt'' 9 1 (mark_extracted ''a.txt'' 7 2 (CheckpointManager None))
     = mark_extracted ''a.txt'' 7 2 (CheckpointManager None)
   \<and> extracted_files (data (mark_extracted ''a.txt'' 7 2 (CheckpointManager None))) = [''a.txt'']
   \<and> total_quotes_extracted (data (mark_extracted ''a.txt'' 7 2 (CheckpointManager None))) = 7
   \<and> total_quotes_translated (data (mark_translated ''a.txt'' 7 2 (CheckpointManager None))) = 7"
  using mark_idempotent [of "''a.txt''" 9 1 7 2 "CheckpointManager None"]
  by (simp add: CheckpointManager_def load_checkpoint_def empty_checkpoint_def)

lemma run_ops_snoc: "run_ops (ops @ [op]) = apply_op op (run_ops ops)"
  by (simp add: run_ops_def)

lemma in_sync_run_ops: "in_sync (run_ops ops)"
proof (induction ops rule: rev_induct)
  case Nil
  show ?case by (simp add: run_ops_def in_sync_def CheckpointManager_def)
next
  case (snoc op ops)
  then show ?case
    by (cases op)
       (simp_all add: run_ops_snoc in_sync_def mark_extracted_def mark_translated_def
          add_error_def save_def CheckpointManager_def load_checkpoint_def)
qed

lemma load_in_sync: "in_sync cm \<Longrightarrow> data (CheckpointManager (checkpoint_file cm)) = data cm"
  by (simp add: in_sync_def CheckpointManager_def)

lemma extracted_count_snoc:
  "extracted_count (ops @ [op]) f =
     (case extracted_count ops f of Some q \<Rightarrow> Some q | None \<Rightarrow> extracted_count [op] f)"
  by (induction ops f rule: extracted_count.induct) simp_all

lemma translated_count_snoc:
  "translated_count (ops @ [op]) f =
     (case translated_count ops f of Some q \<Rightarrow> Some q | None \<Rightarrow> translated_count [op] f)"
  by (induction ops f rule: translated_count.induct) simp_all

lemma extracted_files_run_ops:
  "set (extracted_files (data (run_ops ops))) = {f. extracted_count ops f \<noteq> None}"
proof (induction ops rule: rev_induct)
  case Nil
  show ?case
    by (simp add: run_ops_def CheckpointManager_def load_checkpoint_def empty_checkpoint_def)
next
  case (snoc op ops)
  have sync: "in_sync (run_ops ops)" by (rule in_sync_run_ops)
  show ?case
  proof (cases op)
    case (MarkExtracted g q c)
    with snoc show ?thesis
      by (auto simp: run_ops_snoc extracted_count_snoc mark_extracted_def save_def
            split: option.splits if_splits)
  next
    case (MarkTranslated g q c)
    with snoc show ?thesis
      by (auto simp: run_ops_snoc extracted_count_snoc mark_translated_def save_def
            split: option.splits)
  next
    case (AddError ts msg)
    with snoc show ?thesis
      by (auto simp: run_ops_snoc extracted_count_snoc add_error_def save_def
            split: option.splits)
  next
    case Load
    with snoc load_in_sync [OF sync] show ?thesis
      by (auto simp: run_ops_snoc extracted_count_snoc split: option.splits)
  qed
qed

lemma sum_extracted_snoc:
  assumes "set fs \<subseteq> {f. extracted_count ops f \<noteq> None}"
  shows "sum_list (map (unit_quote_count (ops @ [op])) fs) = sum_list (map (unit_quote_count ops) fs)"
proof -
  have "unit_quote_count (ops @ [op]) f = unit_quote_count ops f" if "f \<in> set fs" for f
    using that assms by (auto simp: unit_quote_count_def extracted_count_snoc split: option.splits)
  then show ?thesis by (simp cong: map_cong)
qed

lemma counter_invariant:
  "total_quotes_extracted (data (run_ops ops))
     = sum_list (map (unit_quote_count ops) (extracted_files (data (run_ops ops))))
   \<and> distinct (extracted_files (data (run_ops ops)))"
proof (induction ops rule: rev_induct)
  case Nil
  show ?case
    by (simp add: run_ops_def CheckpointManager_def load_checkpoint_def empty_checkpoint_def)
next
  case (snoc op ops)
  have sync: "in_sync (run_ops ops)" by (rule in_sync_run_ops)
  have sub: "set (extracted_files (data (run_ops ops))) \<subseteq> {f. extracted_count ops f \<noteq> None}"
    by (simp add: extracted_files_run_ops)
  note keep = sum_extracted_snoc [OF sub, of op]
  show ?case
  proof (cases op)
    case (MarkExtracted g q c)
    show ?thesis
    proof (cases "g \<in> set (extracted_files (data (run_ops ops)))")
      case True
      with snoc keep MarkExtracted show ?thesis
        by (simp add: run_ops_snoc mark_extracted_def save_def)
    next
      case False
      then have "extracted_count ops g = None"
        by (simp add: extracted_files_run_ops)
      then have "unit_quote_count (ops @ [op]) g = q"
        using MarkExtracted by (simp add: unit_quote_count_def extracted_count_snoc)
      with False snoc keep MarkExtracted show ?thesis
        by (simp add: run_ops_snoc mark_extracted_def save_def)
    qed
  next
    case (MarkTranslated g q c)
    with snoc keep show ?thesis
      by (simp add: run_ops_snoc mark_translated_def save_def)
  next
    case (AddError ts msg)
    with snoc keep show ?thesis
      by (simp add: run_ops_snoc add_error_def save_def)
  next
    case Load
    with snoc keep load_in_sync [OF sync] show ?thesis
      by (simp add: run_ops_snoc)
  qed
qed

lemma filter_done_units:
  "filter (\<lambda>f. stage_status cm f = Extracted \<or> stage_status cm f = Translated) (known_units cm)
     = known_units cm"
  by (rule filter_True)
     (auto simp: known_units_def stage_status_def is_extracted_def is_translated_def)

lemma quotes_of_done_units_subset:
  assumes "set (translated_files (data (run_ops ops))) \<subseteq> set (extracted_files (data (run_ops ops)))"
  shows "quotes_of_done_units ops
           = sum_list (map (unit_quote_count ops) (extracted_files (data (run_ops ops))))"
proof -
  let ?cm = "run_ops ops"
  have d: "distinct (extracted_files (data ?cm))"
    using counter_invariant by blast
  have s: "set (known_units ?cm) = set (extracted_files (data ?cm))"
    using assms by (auto simp: known_units_def)
  have "quotes_of_done_units ops = sum_list (map (unit_quote_count ops) (known_units ?cm))"
    by (simp add: quotes_of_done_units_def filter_done_units)
  also have "\<dots> = sum (unit_quote_count ops) (set (known_units ?cm))"
    by (rule sum_list_distinct_conv_sum_set) (simp add: known_units_def)
  also have "\<dots> = sum_list (map (unit_quote_count ops) (extracted_files (data ?cm)))"
    unfolding s by (rule sum_list_distinct_conv_sum_set [symmetric]) (rule d)
  finally show ?thesis .
qed

text \<open>
  Claim C3 (as amended). After any history of \<^verbatim>\<open>mark_extracted\<close>, \<^verbatim>\<open>mark_translated\<close>,
  \<^verbatim>\<open>add_error\<close> and reloads, starting with no checkpoint file, the counter
  \<^verbatim>\<open>total_quotes_extracted\<close> is the sum, over the file names in
  \<^verbatim>\<open>extracted_files\<close> (which are distinct), of the quote count passed by the first
  \<^verbatim>\<open>mark_extracted\<close> for that name. It is the sum of the quote counts of all units with
  status extracted or translated when every translated file is also an extracted one.
\<close>

theorem counter_consistency:
  "total_quotes_extracted (data (run_ops ops))
     = sum_list (map (unit_quote_count ops) (extracted_files (data (run_ops ops))))
   \<and> distinct (extracted_files (data (run_ops ops)))
   \<and> (set (translated_files (data (run_ops ops))) \<subseteq> set (extracted_files (data (run_ops ops)))
        \<longrightarrow> counter_consistent ops)"
  using counter_invariant [of ops] quotes_of_done_units_subset [of ops]
  by (simp add: counter_consistent_def)

lemmas ckpt_eval = run_ops_def CheckpointManager_def load_checkpoint_def empty_checkpoint_def
  mark_extracted_def mark_translated_def add_error_def save_def

theorem counter_consistency_witness:
  "total_quotes_extracted (data (run_ops
      [MarkExtracted ''a.txt'' 4 (2 / 100), Load, MarkExtracted ''a.txt'' 9 (2 / 100),
       MarkTranslated ''a.txt'' 4 (3 / 100), AddError ''t'' ''m'', MarkExtracted ''b.txt'' 7 (2 / 100)])) = 11
   \<and> counter_consistent
      [MarkExtracted ''a.txt'' 4 (2 / 100), Load, MarkExtracted ''a.txt'' 9 (2 / 100),
       MarkTranslated ''a.txt'' 4 (3 / 100), AddError ''t'' ''m'', MarkExtracted ''b.txt'' 7 (2 / 100)]"
  using counter_consistency [of
      "[MarkExtracted ''a.txt'' 4 (2 / 100), Load, MarkExtracted ''a.txt'' 9 (2 / 100),
        MarkTranslated ''a.txt'' 4 (3 / 100), AddError ''t'' ''m'', MarkExtracted ''b.txt'' 7 (2 / 100)]"]
  by (simp add: ckpt_eval unit_quote_count_def)

text \<open>
  The claim as stated fails on the history that marks a file translated which was never
  marked extracted: the unit is translated with five quotes, and the counter is zero.
\<close>

theorem counter_consistency_counterexample:
  "\<not> counter_consistent [MarkTranslated ''a.txt'' 5 (3 / 100)]"
  by (simp add: counter_consistent_def quotes_of_done_units_def known_units_def
        stage_status_def is_translated_def is_extracted_def unit_quote_count_def ckpt_eval)

section \<open>Properties of the translation stage and of the retry loops\<close>

lemma same_files_refl: "same_files w w"
  by (simp add: same_files_def)
















lemma record_failure_api_calls:
  "api_calls (record_failure sv m rc w) = api_calls w"
  by (simp add: record_failure_def Let_def)




























section \<open>Properties of the script that fills missing translations\<close>










section \<open>Properties of the transcript alignment\<close>

lemma isdigit_not_paren: "isdigit c \<Longrightarrow> c \<noteq> CHR ''(''"
  by (auto simp: isdigit_def)

lemma mms_Some:
  assumes "match_minutes_seconds s = Some r"
  shows "7 \<le> length s" "r = take 6 s" "length r = 6"
    "\<forall>k < 7. s ! k \<noteq> CHR ''(''"
proof -
  from assms have c: "7 \<le> length s" "s ! 0 = CHR '':''" "isdigit (s ! 1)" "isdigit (s ! 2)"
    "s ! 3 = CHR '':''" "isdigit (s ! 4)" "isdigit (s ! 5)" "s ! 6 = CHR '')''" "r = take 6 s"
    by (auto simp: match_minutes_seconds_def split: if_splits)
  show "7 \<le> length s" "r = take 6 s" by fact+
  from c show "length r = 6" by simp
  show "\<forall>k < 7. s ! k \<noteq> CHR ''(''"
  proof (intro allI impI)
    fix k :: nat
    assume "k < 7"
    then consider "k = 0" | "k = 1" | "k = 2" | "k = 3" | "k = 4" | "k = 5" | "k = 6"
      by linarith
    then show "s ! k \<noteq> CHR ''(''"
      using c isdigit_not_paren by cases auto
  qed
qed

lemma timestamp_match_Some:
  assumes "timestamp_match s = Some g"
  shows "length g + 2 \<le> length s" "7 \<le> length g" "s ! 0 = CHR ''(''"
    "\<forall>k. 0 < k \<and> k < length g + 2 \<longrightarrow> s ! k \<noteq> CHR ''(''"
proof -
  from assms have h: "2 \<le> length s" "s ! 0 = CHR ''(''" "isdigit (s ! 1)"
    by (auto simp: timestamp_match_def split: if_splits)
  show "s ! 0 = CHR ''(''" by fact
  consider (two) r where "3 \<le> length s" "isdigit (s ! 2)"
      "match_minutes_seconds (drop 3 s) = Some r" "g = s ! 1 # s ! 2 # r"
    | (one) r where "match_minutes_seconds (drop 2 s) = Some r" "g = s ! 1 # r"
    using assms h by (auto simp: timestamp_match_def split: if_splits option.splits)
  then have "length g + 2 \<le> length s \<and> 7 \<le> length g
      \<and> (\<forall>k. 0 < k \<and> k < length g + 2 \<longrightarrow> s ! k \<noteq> CHR ''('')"
  proof cases
    case two
    note m = mms_Some [OF two(3)]
    from m(1) have len: "10 \<le> length s" by simp
    have "s ! k \<noteq> CHR ''(''" if "0 < k" "k < 10" for k
    proof (cases "k < 3")
      case True
      with that have "k = 1 \<or> k = 2" by linarith
      with h two isdigit_not_paren show ?thesis by auto
    next
      case False
      then have "k - 3 < 7" and k3: "3 + (k - 3) = k" using that by simp_all
      with m(4) have "drop 3 s ! (k - 3) \<noteq> CHR ''(''" by blast
      moreover from len have "drop 3 s ! (k - 3) = s ! (3 + (k - 3))" by (intro nth_drop) simp
      ultimately show ?thesis unfolding k3 by simp
    qed
    with two m len show ?thesis by simp
  next
    case one
    note m = mms_Some [OF one(1)]
    from m(1) have len: "9 \<le> length s" by simp
    have "s ! k \<noteq> CHR ''(''" if "0 < k" "k < 9" for k
    proof (cases "k < 2")
      case True
      with that have "k = 1" by linarith
      with h isdigit_not_paren show ?thesis by auto
    next
      case False
      then have "k - 2 < 7" and k2: "2 + (k - 2) = k" using that by simp_all
      with m(4) have "drop 2 s ! (k - 2) \<noteq> CHR ''(''" by blast
      moreover from len have "drop 2 s ! (k - 2) = s ! (2 + (k - 2))" by (intro nth_drop) simp
      ultimately show ?thesis unfolding k2 by simp
    qed
    with one m len show ?thesis by simp
  qed
  then show "length g + 2 \<le> length s" "7 \<le> length g"
    "\<forall>k. 0 < k \<and> k < length g + 2 \<longrightarrow> s ! k \<noteq> CHR ''(''"
    by blast+
qed

lemma timestamp_match_length: "timestamp_match s = Some g \<Longrightarrow> length g \<le> 8"
  by (auto simp: timestamp_match_def split: if_splits option.splits dest: mms_Some(3))

lemma timestamp_match_Nil: "timestamp_match [] = None"
  by (simp add: timestamp_match_def)

lemma no_overlap:
  assumes "timestamp_match s = Some g" "0 < k" "k < length g + 2"
  shows "timestamp_match (drop k s) = None"
proof (rule ccontr)
  assume "timestamp_match (drop k s) \<noteq> None"
  then obtain g' where g': "timestamp_match (drop k s) = Some g'" by blast
  from timestamp_match_Some(1) [OF assms(1)] assms(3) have "k < length s" by simp
  with timestamp_match_Some(3) [OF g'] have "s ! k = CHR ''(''" by simp
  with timestamp_match_Some(4) [OF assms(1)] assms(2,3) show False by blast
qed

lemma finditer_from_set:
  "(p, g) \<in> set (finditer_from i s)
     \<longleftrightarrow> (\<exists>k. p = i + k \<and> timestamp_match (drop k s) = Some g)"
proof (induction i s arbitrary: p g rule: finditer_from.induct)
  case (1 i s)
  show ?case
  proof (cases "s = []")
    case True
    then show ?thesis by (simp add: finditer_from.simps [of i "[]"] timestamp_match_Nil)
  next
    case False
    show ?thesis
    proof (cases "timestamp_match s")
      case None
      have "(\<exists>k. p = i + k \<and> timestamp_match (drop k s) = Some g)
              \<longleftrightarrow> (\<exists>k. p = Suc i + k \<and> timestamp_match (drop k (tl s)) = Some g)"
      proof
        assume "\<exists>k. p = i + k \<and> timestamp_match (drop k s) = Some g"
        then obtain k where k: "p = i + k" "timestamp_match (drop k s) = Some g" by blast
        with None have "k \<noteq> 0" by (cases k) auto
        then obtain j where "k = Suc j" by (cases k) auto
        with k show "\<exists>k. p = Suc i + k \<and> timestamp_match (drop k (tl s)) = Some g"
          by (auto simp: drop_Suc)
      next
        assume "\<exists>k. p = Suc i + k \<and> timestamp_match (drop k (tl s)) = Some g"
        then obtain k where "p = Suc i + k" "timestamp_match (drop k (tl s)) = Some g" by blast
        then have "p = i + Suc k \<and> timestamp_match (drop (Suc k) s) = Some g"
          by (simp add: drop_Suc)
        then show "\<exists>k. p = i + k \<and> timestamp_match (drop k s) = Some g" by blast
      qed
      with "1.IH"(1) [OF False None] False None show ?thesis
        by (simp add: finditer_from.simps [of i s])
    next
      case (Some g0)
      let ?n = "length g0 + 2"
      have "(\<exists>k. p = i + k \<and> timestamp_match (drop k s) = Some g)
              \<longleftrightarrow> (p = i \<and> g = g0)
                  \<or> (\<exists>k. p = i + ?n + k \<and> timestamp_match (drop k (drop ?n s)) = Some g)"
      proof
        assume "\<exists>k. p = i + k \<and> timestamp_match (drop k s) = Some g"
        then obtain k where k: "p = i + k" "timestamp_match (drop k s) = Some g" by blast
        show "(p = i \<and> g = g0)
                  \<or> (\<exists>k. p = i + ?n + k \<and> timestamp_match (drop k (drop ?n s)) = Some g)"
        proof (cases "k = 0")
          case True
          with k Some show ?thesis by simp
        next
          case False
          with no_overlap [OF Some, of k] k have "?n \<le> k" by force
          then have "k = (k - ?n) + ?n" by simp
          with k have "p = i + ?n + (k - ?n) \<and> timestamp_match (drop (k - ?n) (drop ?n s)) = Some g"
            by (metis add.assoc add.commute drop_drop)
          then show ?thesis by blast
        qed
      next
        assume "(p = i \<and> g = g0)
                  \<or> (\<exists>k. p = i + ?n + k \<and> timestamp_match (drop k (drop ?n s)) = Some g)"
        then show "\<exists>k. p = i + k \<and> timestamp_match (drop k s) = Some g"
        proof
          assume "p = i \<and> g = g0"
          with Some have "p = i + 0 \<and> timestamp_match (drop 0 s) = Some g" by simp
          then show ?thesis by blast
        next
          assume "\<exists>k. p = i + ?n + k \<and> timestamp_match (drop k (drop ?n s)) = Some g"
          then obtain k where "p = i + ?n + k" "timestamp_match (drop k (drop ?n s)) = Some g"
            by blast
          then have "p = i + (k + ?n) \<and> timestamp_match (drop (k + ?n) s) = Some g"
            by (simp add: add.commute add.left_commute)
          then show ?thesis by blast
        qed
      qed
      with "1.IH"(2) [OF False Some] False Some show ?thesis
        by (simp add: finditer_from.simps [of i s])
    qed
  qed
qed

lemma finditer_from_sorted: "sorted_wrt (<) (map fst (finditer_from i s))"
proof (induction i s rule: finditer_from.induct)
  case (1 i s)
  show ?case
  proof (cases "s = []")
    case True
    then show ?thesis by (simp add: finditer_from.simps [of i "[]"])
  next
    case False
    show ?thesis
    proof (cases "timestamp_match s")
      case None
      with "1.IH"(1) [OF False None] False show ?thesis
        by (simp add: finditer_from.simps [of i s])
    next
      case (Some g0)
      have "i < fst x" if "x \<in> set (finditer_from (i + length g0 + 2) (drop (length g0 + 2) s))" for x
      proof -
        obtain p g where "x = (p, g)" by force
        with that finditer_from_set [of p g "i + length g0 + 2" "drop (length g0 + 2) s"]
        show ?thesis by auto
      qed
      with "1.IH"(2) [OF False Some] False Some show ?thesis
        by (auto simp: finditer_from.simps [of i s])
    qed
  qed
qed

lemma mms_take:
  "match_minutes_seconds (take m s) = (if 7 \<le> m then match_minutes_seconds s else None)"
  by (simp add: match_minutes_seconds_def min_def)

lemma mms_length: "match_minutes_seconds s = Some r \<Longrightarrow> length r = 6"
  by (rule mms_Some(3))

lemma timestamp_match_take:
  "timestamp_match (take m s) =
     (case timestamp_match s of
        Some g \<Rightarrow> if length g + 2 \<le> m then Some g else None
      | None \<Rightarrow> None)"
proof (cases "2 \<le> m")
  case False
  then have "timestamp_match (take m s) = None"
    by (simp add: timestamp_match_def)
  moreover have "timestamp_match s = Some g \<Longrightarrow> \<not> length g + 2 \<le> m" for g
    using timestamp_match_Some(2) [of s g] False by simp
  ultimately show ?thesis by (simp split: option.splits)
next
  case m2: True
  show ?thesis
  proof (cases "2 \<le> length s \<and> s ! 0 = CHR ''('' \<and> isdigit (s ! 1)")
    case False
    with m2 show ?thesis
      by (auto simp: timestamp_match_def)
  next
    case head: True
    let ?two = "if 3 \<le> length s \<and> isdigit (s ! 2)
                then map_option (\<lambda>r. s ! 1 # s ! 2 # r) (match_minutes_seconds (drop 3 s))
                else None"
    let ?two' = "if 3 \<le> length (take m s) \<and> isdigit (take m s ! 2)
                then map_option (\<lambda>r. take m s ! 1 # take m s ! 2 # r)
                       (match_minutes_seconds (drop 3 (take m s)))
                else None"
    have full: "timestamp_match s =
        (case ?two of Some g \<Rightarrow> Some g
         | None \<Rightarrow> map_option (\<lambda>r. s ! 1 # r) (match_minutes_seconds (drop 2 s)))"
      using head by (simp add: timestamp_match_def)
    have cut: "timestamp_match (take m s) =
        (case ?two' of Some g \<Rightarrow> Some g
         | None \<Rightarrow> map_option (\<lambda>r. take m s ! 1 # r) (match_minutes_seconds (drop 2 (take m s))))"
      using head m2 by (simp add: timestamp_match_def)
    have two': "?two' = (if 10 \<le> m then ?two else None)"
      using m2 by (auto simp: drop_take mms_take)
    have one': "map_option (\<lambda>r. take m s ! 1 # r) (match_minutes_seconds (drop 2 (take m s)))
        = (if 9 \<le> m then map_option (\<lambda>r. s ! 1 # r) (match_minutes_seconds (drop 2 s)) else None)"
      using m2 by (auto simp: drop_take mms_take)
    have excl: "?two \<noteq> None \<Longrightarrow> match_minutes_seconds (drop 2 s) = None"
      by (auto simp: match_minutes_seconds_def isdigit_def split: if_splits)
    show ?thesis
    proof (cases ?two)
      case (Some g)
      then have "length g = 8"
        by (auto split: if_splits dest: mms_length)
      with Some full cut two' show ?thesis
        using excl one' by (auto split: if_splits)
    next
      case None
      show ?thesis
      proof (cases "match_minutes_seconds (drop 2 s)")
        case n: None
        with None full cut two' one' show ?thesis by (auto split: if_splits)
      next
        case (Some r)
        then have "length r = 6" by (rule mms_length)
        with Some None full cut two' one' show ?thesis by (auto split: if_splits)
      qed
    qed
  qed
qed

lemma marker_at_take:
  "marker_at (take q t) p g \<longleftrightarrow> marker_at t p g \<and> p + length g + 2 \<le> q"
proof -
  have "drop p (take q t) = take (q - p) (drop p t)"
    by (simp add: drop_take)
  then show ?thesis
    using timestamp_match_Some(2) [of "drop p t" g]
    by (auto simp: marker_at_def timestamp_match_take split: option.splits if_splits)
qed

lemma marker_at_fun: "marker_at t p g \<Longrightarrow> marker_at t p g' \<Longrightarrow> g = g'"
  by (simp add: marker_at_def)

lemma window_start: "nat (max 0 (int q - int w)) = q - w"
  by simp

lemma finditer_window:
  "(k, g) \<in> set (finditer_from 0 (slice t (q - w) q)) \<longleftrightarrow> marker_inside t (q - w) q (q - w + k) g"
proof -
  have "drop k (slice t (q - w) q) = drop (q - w + k) (take q t)"
    by (simp add: slice_def drop_take add.commute)
  then have "(k, g) \<in> set (finditer_from 0 (slice t (q - w) q))
               \<longleftrightarrow> marker_at (take q t) (q - w + k) g"
    by (simp add: finditer_from_set marker_at_def)
  then show ?thesis
    by (auto simp: marker_at_take marker_inside_def)
qed

lemma finditer_sort: "sort_key fst (finditer_from i s) = finditer_from i s"
  by (rule sort_key_id_if_sorted) (rule strict_sorted_imp_sorted, rule finditer_from_sorted)

lemma sorted_le_last: "sorted (xs :: nat list) \<Longrightarrow> x \<in> set xs \<Longrightarrow> x \<le> last xs"
  by (induction xs) auto

lemma finditer_last:
  assumes "x \<in> set (finditer_from i s)"
  shows "fst x \<le> fst (last (finditer_from i s))"
proof -
  let ?xs = "finditer_from i s"
  from assms have ne: "?xs \<noteq> []" by auto
  have "sorted (map fst ?xs)"
    by (rule strict_sorted_imp_sorted, rule finditer_from_sorted)
  moreover from assms have "fst x \<in> set (map fst ?xs)" by simp
  ultimately have "fst x \<le> last (map fst ?xs)" by (rule sorted_le_last)
  with ne show ?thesis by (simp add: last_map)
qed

lemma search_in_window_None:
  "search_in_window t q w = None \<longleftrightarrow> (\<forall>p g. \<not> marker_inside t (q - w) q p g)"
proof
  assume "search_in_window t q w = None"
  then have e: "finditer_from 0 (slice t (q - w) q) = []"
    by (simp add: search_in_window_def Let_def window_start split: if_splits)
  show "\<forall>p g. \<not> marker_inside t (q - w) q p g"
  proof (intro allI notI)
    fix p g
    assume m: "marker_inside t (q - w) q p g"
    then have "q - w + (p - (q - w)) = p" by (simp add: marker_inside_def)
    with m finditer_window [of "p - (q - w)" g t q w] e show False by simp
  qed
next
  assume a: "\<forall>p g. \<not> marker_inside t (q - w) q p g"
  have "finditer_from 0 (slice t (q - w) q) = []"
  proof (rule ccontr)
    assume "finditer_from 0 (slice t (q - w) q) \<noteq> []"
    then obtain k g where "(k, g) \<in> set (finditer_from 0 (slice t (q - w) q))"
      by (cases "finditer_from 0 (slice t (q - w) q)") auto
    with finditer_window a show False by blast
  qed
  then show "search_in_window t q w = None"
    by (simp add: search_in_window_def Let_def window_start)
qed

lemma search_in_window_Some:
  assumes "search_in_window t q w = Some g"
  shows "g \<noteq> [] \<and> (\<exists>p. marker_inside t (q - w) q p g
            \<and> (\<forall>p' g'. marker_inside t (q - w) q p' g' \<longrightarrow> p' \<le> p))"
proof -
  let ?xs = "finditer_from 0 (slice t (q - w) q)"
  from assms have ne: "?xs \<noteq> []" and g: "g = snd (last ?xs)"
    by (auto simp: search_in_window_def Let_def finditer_sort window_start split: if_splits)
  obtain k where l: "last ?xs = (k, g)" using g by (cases "last ?xs") simp
  from ne have "last ?xs \<in> set ?xs" by simp
  with l have in_set: "(k, g) \<in> set ?xs" by simp
  then have m: "marker_inside t (q - w) q (q - w + k) g" by (simp add: finditer_window)
  have "p' \<le> q - w + k" if m': "marker_inside t (q - w) q p' g'" for p' g'
  proof -
    from m' have eq: "q - w + (p' - (q - w)) = p'" by (simp add: marker_inside_def)
    with m' finditer_window [of "p' - (q - w)" g' t q w]
    have "(p' - (q - w), g') \<in> set ?xs" by simp
    from finditer_last [OF this] l have "p' - (q - w) \<le> k" by simp
    with eq show ?thesis by linarith
  qed
  moreover from m have "g \<noteq> []"
    using timestamp_match_Some(2) [of "drop (q - w + k) t" g]
    by (auto simp: marker_inside_def marker_at_def)
  ultimately show ?thesis using m by blast
qed

lemma found_search: "found (search_in_window t q w) \<longleftrightarrow> search_in_window t q w \<noteq> None"
  using search_in_window_Some [of t q w]
  by (cases "search_in_window t q w") (auto simp: found_def)

lemma find_timestamp_cascade:
  "find_timestamp_before_position t q =
     map_option normalize_timestamp
       (case filter (\<lambda>w. search_in_window t q w \<noteq> None) [200, 500, 1000, q] of
          [] \<Rightarrow> None
        | w # _ \<Rightarrow> search_in_window t q w)"
  by (simp add: find_timestamp_before_position_def Let_def found_search)

lemma marker_inside_mono:
  "marker_inside t lo hi p g \<Longrightarrow> lo' \<le> lo \<Longrightarrow> marker_inside t lo' hi p g"
  by (simp add: marker_inside_def)

lemma find_timestamp_None:
  "find_timestamp_before_position t q = None \<longleftrightarrow> (\<forall>p g. \<not> marker_inside t 0 q p g)"
proof
  assume "find_timestamp_before_position t q = None"
  then have "search_in_window t q q = None"
    by (simp add: find_timestamp_cascade split: if_splits)
  then show "\<forall>p g. \<not> marker_inside t 0 q p g"
    by (simp add: search_in_window_None)
next
  assume a: "\<forall>p g. \<not> marker_inside t 0 q p g"
  have "search_in_window t q w = None" for w
    unfolding search_in_window_None using a marker_inside_mono [of t "q - w" q _ _ 0] by blast
  then show "find_timestamp_before_position t q = None"
    by (simp add: find_timestamp_cascade)
qed

lemma find_timestamp_Some:
  assumes "find_timestamp_before_position t q = Some r"
  shows "\<exists>p g. marker_inside t 0 q p g \<and> r = normalize_timestamp g
           \<and> (\<forall>p' g'. marker_inside t 0 q p' g' \<longrightarrow> p' \<le> p)"
proof -
  from assms obtain w g where s: "search_in_window t q w = Some g" and r: "r = normalize_timestamp g"
    by (auto simp: find_timestamp_cascade split: if_splits)
  from search_in_window_Some [OF s] obtain p where
    m: "marker_inside t (q - w) q p g"
    and mx: "\<forall>p' g'. marker_inside t (q - w) q p' g' \<longrightarrow> p' \<le> p"
    by blast
  have "p' \<le> p" if m': "marker_inside t 0 q p' g'" for p' g'
  proof (cases "q - w \<le> p'")
    case True
    with m' have "marker_inside t (q - w) q p' g'" by (simp add: marker_inside_def)
    with mx show ?thesis by blast
  next
    case False
    with m show ?thesis by (simp add: marker_inside_def)
  qed
  with m r marker_inside_mono [OF m, of 0] show ?thesis by blast
qed

lemma find_timestamp_prefix:
  "find_timestamp_before_position (take q t) q = find_timestamp_before_position t q"
proof -
  have "slice (take q t) a q = slice t a q" for a
    by (simp add: slice_def drop_take)
  then have "search_in_window (take q t) q w = search_in_window t q w" for w
    by (simp add: search_in_window_def)
  then show ?thesis
    by (simp add: find_timestamp_cascade)
qed

lemma window_expansion:
  assumes q: "300 \<le> q" and m: "marker_at t (q - 300) g"
    and nearest: "\<forall>p' g'. marker_inside t 0 q p' g' \<longrightarrow> p' \<le> q - 300"
  shows "search_in_window t q 200 = None \<and> search_in_window t q 500 = Some g
         \<and> find_timestamp_before_position t q = Some (normalize_timestamp g)"
proof -
  have n200: "search_in_window t q 200 = None"
    unfolding search_in_window_None
  proof (intro allI notI)
    fix p' g'
    assume a: "marker_inside t (q - 200) q p' g'"
    then have "marker_inside t 0 q p' g'" by (rule marker_inside_mono) simp
    with nearest have "p' \<le> q - 300" by blast
    with a q show False unfolding marker_inside_def by linarith
  qed
  from m have len: "length g \<le> 8"
    unfolding marker_at_def by (rule timestamp_match_length)
  with q have "q - 500 \<le> q - 300 \<and> q - 300 + length g + 2 \<le> q" by linarith
  with m have ins: "marker_inside t (q - 500) q (q - 300) g"
    unfolding marker_inside_def by blast
  then have "search_in_window t q 500 \<noteq> None"
    by (subst search_in_window_None) blast
  then obtain g1 where s: "search_in_window t q 500 = Some g1" by blast
  from search_in_window_Some [OF s] obtain p1 where
    m1: "marker_inside t (q - 500) q p1 g1"
    and mx: "\<forall>p' g'. marker_inside t (q - 500) q p' g' \<longrightarrow> p' \<le> p1"
    by blast
  from mx ins have "q - 300 \<le> p1" by blast
  moreover from nearest marker_inside_mono [OF m1, of 0] have "p1 \<le> q - 300" by blast
  ultimately have "p1 = q - 300" by simp
  with m1 m have "g1 = g" by (auto simp: marker_inside_def dest: marker_at_fun)
  with s n200 show ?thesis
    by (simp add: find_timestamp_cascade)
qed

text \<open>
  Claim C7. For a transcript \<open>t\<close> and a quote offset \<open>q\<close>: a window search of size \<open>w\<close>
  finds nothing exactly when no marker lies inside \<open>[q - w, q)\<close>, and otherwise returns
  the marker of largest offset inside that window. The resolver returns the normalised
  result of the first of the windows 200, 500, 1000 and \<open>q\<close> (the whole prefix) that
  finds a marker. So it returns nothing exactly when no marker lies inside \<open>[0, q)\<close>,
  and otherwise the normalised marker of largest offset inside \<open>[0, q)\<close>; the
  characters at and after \<open>q\<close> have no influence. When the nearest marker before the
  quote starts 300 characters before it, the window of 200 finds nothing and the window
  of 500 returns that marker.
\<close>

theorem alignment_window_correctness:
  "(\<forall>w. (search_in_window t q w = None \<longleftrightarrow> (\<forall>p g. \<not> marker_inside t (q - w) q p g))
        \<and> (\<forall>g. search_in_window t q w = Some g \<longrightarrow>
              (\<exists>p. marker_inside t (q - w) q p g
                   \<and> (\<forall>p' g'. marker_inside t (q - w) q p' g' \<longrightarrow> p' \<le> p))))
   \<and> find_timestamp_before_position t q =
       map_option normalize_timestamp
         (case filter (\<lambda>w. search_in_window t q w \<noteq> None) [200, 500, 1000, q] of
            [] \<Rightarrow> None
          | w # _ \<Rightarrow> search_in_window t q w)
   \<and> (find_timestamp_before_position t q = None \<longleftrightarrow> (\<forall>p g. \<not> marker_inside t 0 q p g))
   \<and> (\<forall>r. find_timestamp_before_position t q = Some r \<longrightarrow>
          (\<exists>p g. marker_inside t 0 q p g \<and> r = normalize_timestamp g
                 \<and> (\<forall>p' g'. marker_inside t 0 q p' g' \<longrightarrow> p' \<le> p)))
   \<and> find_timestamp_before_position (take q t) q = find_timestamp_before_position t q
   \<and> (300 \<le> q \<and> marker_at t (q - 300) g0
        \<and> (\<forall>p' g'. marker_inside t 0 q p' g' \<longrightarrow> p' \<le> q - 300)
        \<longrightarrow> search_in_window t q 200 = None \<and> search_in_window t q 500 = Some g0
            \<and> find_timestamp_before_position t q = Some (normalize_timestamp g0))"
proof (intro conjI allI impI)
  fix w
  show "search_in_window t q w = None \<longleftrightarrow> (\<forall>p g. \<not> marker_inside t (q - w) q p g)"
    by (rule search_in_window_None)
next
  fix w g
  assume "search_in_window t q w = Some g"
  from search_in_window_Some [OF this]
  show "\<exists>p. marker_inside t (q - w) q p g
           \<and> (\<forall>p' g'. marker_inside t (q - w) q p' g' \<longrightarrow> p' \<le> p)" by blast
next
  show "find_timestamp_before_position t q =
       map_option normalize_timestamp
         (case filter (\<lambda>w. search_in_window t q w \<noteq> None) [200, 500, 1000, q] of
            [] \<Rightarrow> None
          | w # _ \<Rightarrow> search_in_window t q w)"
    by (rule find_timestamp_cascade)
next
  show "find_timestamp_before_position t q = None \<longleftrightarrow> (\<forall>p g. \<not> marker_inside t 0 q p g)"
    by (rule find_timestamp_None)
next
  fix r
  assume "find_timestamp_before_position t q = Some r"
  then show "\<exists>p g. marker_inside t 0 q p g \<and> r = normalize_timestamp g
                 \<and> (\<forall>p' g'. marker_inside t 0 q p' g' \<longrightarrow> p' \<le> p)"
    by (rule find_timestamp_Some)
next
  show "find_timestamp_before_position (take q t) q = find_timestamp_before_position t q"
    by (rule find_timestamp_prefix)
next
  assume a: "300 \<le> q \<and> marker_at t (q - 300) g0
        \<and> (\<forall>p' g'. marker_inside t 0 q p' g' \<longrightarrow> p' \<le> q - 300)"
  then have "search_in_window t q 200 = None \<and> search_in_window t q 500 = Some g0
         \<and> find_timestamp_before_position t q = Some (normalize_timestamp g0)"
    by (intro window_expansion) blast+
  then show "search_in_window t q 200 = None" "search_in_window t q 500 = Some g0"
    "find_timestamp_before_position t q = Some (normalize_timestamp g0)"
    by blast+
qed

lemma example_transcript_markers:
  "finditer_from 0 example_transcript = [(0, ''1:15:30''), (327, ''00:02:40'')]"
  by code_simp

theorem alignment_window_correctness_witness:
  "search_in_window example_transcript 300 200 = None
   \<and> search_in_window example_transcript 300 500 = Some ''1:15:30''
   \<and> find_timestamp_before_position example_transcript 300 = Some ''01:15:30''"
proof -
  have markers: "marker_at example_transcript p g
      \<longleftrightarrow> (p, g) = (0, ''1:15:30'') \<or> (p, g) = (327, ''00:02:40'')" for p g
    using finditer_from_set [of p g 0 example_transcript]
    by (simp add: example_transcript_markers marker_at_def)
  have h1: "marker_at example_transcript (300 - 300) ''1:15:30''"
    by (simp add: markers)
  have h2: "\<forall>p' g'. marker_inside example_transcript 0 300 p' g' \<longrightarrow> p' \<le> 300 - 300"
    by (auto simp: marker_inside_def markers)
  have n: "normalize_timestamp ''1:15:30'' = ''01:15:30''"
    by code_simp
  from alignment_window_correctness [of example_transcript 300 "''1:15:30''"] h1 h2
  show ?thesis by (simp add: n)
qed

end
